theory Spec2Isabelle
  imports Main
begin

section \<open>mozregui bisection: data model\<close>

text \<open>
  A shallow embedding of \<^verbatim>\<open>gui/mozregui/bisection.py\<close>. Every Qt object is a record of
  its attributes together with the list of signals it has emitted so far; a slot is a
  function from the object's state to its new state. A Python exception that leaves a
  function is a value of type \<open>exn\<close>.
\<close>

datatype exn =
    MozRegressionError string
  | AssertionError
  | AttributeError
  | TypeError
  | KeyError string
  | OtherException string

text \<open>\<^verbatim>\<open>except MozRegressionError\<close>: the only class the source catches.\<close>

fun is_MozRegressionError :: "exn \<Rightarrow> bool" where
  "is_MozRegressionError (MozRegressionError _) = True"
| "is_MozRegressionError _ = False"


text \<open>A \<^verbatim>\<open>build_info\<close> is a Python dict with string keys.\<close>

type_synonym build_info = "string \<rightharpoonup> string"

subsection \<open>Downloads and the download manager\<close>

text \<open>
  The download object handed around by the manager: \<^verbatim>\<open>get_dest()\<close>, \<^verbatim>\<open>is_canceled()\<close>,
  \<^verbatim>\<open>error()\<close> and the progress callback installed by \<^verbatim>\<open>set_progress\<close>.
\<close>

record download =
  dl_url :: string
  dl_dest :: string
  canceled :: bool
  dl_error :: "string option"
  progress_connected :: bool

datatype dm_signal =
    DownloadProgress download int int
  | DownloadStarted download
  | DownloadFinished download

record download_manager =
  downloads :: "download list"
  dm_signals :: "dm_signal list"

text \<open>
  The parts of the base class \<^verbatim>\<open>BuildDownloadManager\<close> that the source calls and that are
  not described further: how a build's url and file name are read from its
  \<^verbatim>\<open>build_info\<close>, how a file name becomes a destination, whether a destination is
  already on disk, and what the base class's \<^verbatim>\<open>_download_finished\<close> does to the tracked
  downloads once one of them has ended.
\<close>

record dm_ops =
  extract_download_info :: "build_info \<Rightarrow> string \<times> string"
  get_dest :: "string \<Rightarrow> string"
  already_downloaded :: "string \<Rightarrow> bool"
  base_download_finished :: "download \<Rightarrow> download list \<Rightarrow> download list"

definition init_download_manager :: download_manager where
  "init_download_manager = \<lparr>downloads = [], dm_signals = []\<rparr>"

text \<open>
  \<^verbatim>\<open>GuiBuildDownloadManager._download_started\<close>: the signal, then the base class's hook.
  The hook is outside the source file; the spec gives a started download no effect beyond
  its event, so the model leaves the tracked downloads as they are.
\<close>

definition download_started :: "download \<Rightarrow> download_manager \<Rightarrow> download_manager" where
  "download_started task dm = dm\<lparr>dm_signals := dm_signals dm @ [DownloadStarted task]\<rparr>"

text \<open>\<^verbatim>\<open>GuiBuildDownloadManager._download_finished\<close>: the signal, then the base class's hook.\<close>

definition download_finished :: "'x dm_ops_scheme \<Rightarrow> download \<Rightarrow> download_manager \<Rightarrow> download_manager" where
  "download_finished ops task dm =
     (let dm1 = dm\<lparr>dm_signals := dm_signals dm @ [DownloadFinished task]\<rparr>
      in dm1\<lparr>downloads := base_download_finished ops task (downloads dm1)\<rparr>)"

text \<open>
  Modelled from the spec: \<^verbatim>\<open>BuildDownloadManager.cancel\<close>, which is not part of the
  source file. ``\<^verbatim>\<open>cancel(predicate)\<close>: cancels every tracked download matching
  \<^verbatim>\<open>predicate\<close>; \<^verbatim>\<open>cancel()\<close> with no predicate cancels all''; cancellation ``sets a
  cancelled flag'' and leaves the entry tracked.
\<close>

definition cancel :: "(download \<Rightarrow> bool) option \<Rightarrow> download_manager \<Rightarrow> download_manager" where
  "cancel cancel_if dm =
     dm\<lparr>downloads :=
          map (\<lambda>dl. if (case cancel_if of None \<Rightarrow> True | Some p \<Rightarrow> p dl)
                     then dl\<lparr>canceled := True\<rparr> else dl)
              (downloads dm)\<rparr>"

text \<open>
  Modelled from the spec: \<^verbatim>\<open>BuildDownloadManager.download\<close>, which is not part of the
  source file. It ``starts (or resumes tracking) the download for the target key if not
  already active'': a download already tracked for the destination is handed back as it
  is, otherwise a new one is started and tracked. The source tests the returned handle
  (\<^verbatim>\<open>if dl:\<close>), so no handle is returned when nothing has to be fetched.
\<close>

definition download ::
  "'x dm_ops_scheme \<Rightarrow> string \<Rightarrow> string \<Rightarrow> download_manager \<Rightarrow> download option \<times> download_manager" where
  "download ops url fname dm =
     (let dest = get_dest ops fname in
      case find (\<lambda>dl. dl_dest dl = dest) (downloads dm) of
        Some dl \<Rightarrow> (Some dl, dm)
      | None \<Rightarrow>
          if already_downloaded ops dest then (None, dm)
          else
            (let dl = \<lparr>dl_url = url, dl_dest = dest, canceled = False,
                       dl_error = None, progress_connected = False\<rparr>
             in (Some dl, download_started dl (dm\<lparr>downloads := downloads dm @ [dl]\<rparr>))))"

text \<open>
  \<^verbatim>\<open>dl.set_progress(self.download_progress.emit)\<close>: the handle is the tracked object
  itself, so the callback is installed on the tracked entry of that destination.
\<close>

definition set_progress :: "string \<Rightarrow> download_manager \<Rightarrow> download_manager" where
  "set_progress dest dm =
     dm\<lparr>downloads :=
          map (\<lambda>dl. if dl_dest dl = dest then dl\<lparr>progress_connected := True\<rparr> else dl)
              (downloads dm)\<rparr>"

text \<open>
  \<^verbatim>\<open>GuiBuildDownloadManager.focus_download\<close>. The dict \<^verbatim>\<open>build_info\<close> is changed in
  place by the source; the model returns the changed dict beside the manager.
\<close>

definition focus_download ::
  "'x dm_ops_scheme \<Rightarrow> build_info \<Rightarrow> download_manager \<Rightarrow> download_manager \<times> build_info" where
  "focus_download ops build_info dm =
     (let (build_url, fname) = extract_download_info ops build_info;
          dest = get_dest ops fname;
          dm1 = cancel (Some (\<lambda>dl. dest \<noteq> dl_dest dl)) dm;
          (dl, dm2) = download ops build_url fname dm1;
          dm3 = (case dl of Some d \<Rightarrow> set_progress (dl_dest d) dm2 | None \<Rightarrow> dm2)
      in (dm3, build_info(''build_path'' \<mapsto> dest)))"

text \<open>The destination \<^verbatim>\<open>focus_download\<close> computes for a build.\<close>

definition build_dest :: "'x dm_ops_scheme \<Rightarrow> build_info \<Rightarrow> string" where
  "build_dest ops build_info = get_dest ops (snd (extract_download_info ops build_info))"

text \<open>The tracked downloads that have not been cancelled.\<close>

definition active_downloads :: "download_manager \<Rightarrow> download list" where
  "active_downloads dm = filter (\<lambda>dl. \<not> canceled dl) (downloads dm)"

text \<open>
  The manager tracks its downloads by destination: no two tracked downloads share one.
  The base class's bookkeeping may only drop entries.
\<close>

definition keyed :: "download_manager \<Rightarrow> bool" where
  "keyed dm = distinct (map dl_dest (downloads dm))"

subsection \<open>The test runner\<close>

text \<open>
  The launcher of a build is an external process. Starting and stopping it are recorded
  in the runner's trace, in order, beside the signals the runner emits.
\<close>

record launcher =
  launcher_build :: "build_info option"
  launcher_running :: bool

datatype tr_event =
    LauncherStarted "build_info option"
  | LauncherStopped "build_info option"
  | EvaluateStarted
  | EvaluateFinished

record gui_test_runner =
  app_info :: build_info
  verdict :: "string option"
  launcher :: "launcher option"
  tr_trace :: "tr_event list"

text \<open>\<^verbatim>\<open>GuiTestRunner.__init__\<close>\<close>

definition init_test_runner :: gui_test_runner where
  "init_test_runner = \<lparr>app_info = Map.empty, verdict = None, launcher = None, tr_trace = []\<rparr>"

text \<open>
  \<^verbatim>\<open>GuiTestRunner.evaluate\<close>. \<open>get_app_info\<close> is what the started launcher reports about
  the build, a parameter of the model; creating and starting the launcher are taken to
  succeed.
\<close>

definition evaluate ::
  "(build_info option \<Rightarrow> build_info) \<Rightarrow> build_info option \<Rightarrow> gui_test_runner \<Rightarrow> gui_test_runner" where
  "evaluate get_app_info build_info tr =
     (let l = \<lparr>launcher_build = build_info, launcher_running = True\<rparr>
      in tr\<lparr>launcher := Some l,
            app_info := get_app_info build_info,
            tr_trace := tr_trace tr @ [LauncherStarted build_info, EvaluateStarted]\<rparr>)"

text \<open>\<^verbatim>\<open>GuiTestRunner.finish\<close>: \<^verbatim>\<open>assert self.launcher\<close> fails when no launcher is held.\<close>

definition finish :: "string \<Rightarrow> gui_test_runner \<Rightarrow> exn + gui_test_runner" where
  "finish v tr =
     (case launcher tr of
        None \<Rightarrow> Inl AssertionError
      | Some l \<Rightarrow>
          Inr (tr\<lparr>verdict := Some v,
                  tr_trace := tr_trace tr @ [LauncherStopped (launcher_build l), EvaluateFinished],
                  launcher := None\<rparr>))"

subsection \<open>The bisector\<close>

text \<open>\<^verbatim>\<open>Bisection.EXCEPTION = -1\<close>\<close>

definition EXCEPTION :: int where
  "EXCEPTION = - 1"

text \<open>
  The class \<^verbatim>\<open>Bisection\<close> and its handler are external to the source file. \<open>'b\<close> is the
  state of a \<^verbatim>\<open>Bisection\<close> object and \<open>'m\<close> a mid point; the methods the source calls
  and the two result codes it compares with are parameters. Each method returns the
  object's new state beside its result; \<^verbatim>\<open>search_mid_point\<close> may raise.
\<close>

record ('b, 'm) bisection_ops = dm_ops +
  RUNNING :: int
  NO_DATA :: int
  search_mid_point :: "'b \<Rightarrow> (exn + 'm) \<times> 'b"
  init_handler :: "'m \<Rightarrow> 'b \<Rightarrow> int \<times> 'b"
  handler_build_infos :: "'m \<Rightarrow> 'b \<Rightarrow> build_info"
  update_build_info :: "'m option \<Rightarrow> build_info \<Rightarrow> 'b \<Rightarrow> 'b"
  handle_verdict :: "'m option \<Rightarrow> string option \<Rightarrow> 'b \<Rightarrow> int \<times> 'b"
  get_app_info :: "build_info option \<Rightarrow> build_info"

datatype 'b signal =
    Started 'b
  | Finished "'b option" int
  | StepStarted "'b option" int
  | StepBuildFound "'b option" int build_info
  | StepFinished "'b option" int "string option"

text \<open>The slots handed to \<^verbatim>\<open>QTimer.singleShot\<close>.\<close>

datatype callback = CB_bisect_next | CB_evaluate

record ('b, 'm) gui_bisector =
  download_manager :: download_manager
  test_runner :: gui_test_runner
  bisection :: "'b option"
  mid :: "'m option"
  build_infos :: "build_info option"
  step_num :: int
  error :: "exn option"
  signals :: "'b signal list"
  timers :: "(nat \<times> callback) list"

text \<open>\<^verbatim>\<open>GuiBisector.__init__\<close>\<close>

definition init_gui_bisector :: "('b, 'm) gui_bisector" where
  "init_gui_bisector =
     \<lparr>download_manager = init_download_manager, test_runner = init_test_runner,
      bisection = None, mid = None, build_infos = None, step_num = 0, error = None,
      signals = [], timers = []\<rparr>"

text \<open>
  \<^verbatim>\<open>GuiBisector._finish_on_exception\<close>; \<open>e\<close> is the exception being handled, which is what
  \<^verbatim>\<open>sys.exc_info()\<close> returns there.
\<close>

definition finish_on_exception ::
  "exn \<Rightarrow> 'b option \<Rightarrow> ('b, 'm) gui_bisector \<Rightarrow> ('b, 'm) gui_bisector" where
  "finish_on_exception e bis s =
     (let s1 = s\<lparr>error := Some e\<rparr>
      in s1\<lparr>signals := signals s1 @ [Finished bis EXCEPTION]\<rparr>)"

text \<open>
  \<^verbatim>\<open>GuiBisector._bisect\<close>; \<open>b\<close> is the \<^verbatim>\<open>Bisection\<close> object the constructor call returns.
\<close>

definition bisect_impl :: "'b \<Rightarrow> ('b, 'm) gui_bisector \<Rightarrow> ('b, 'm) gui_bisector" where
  "bisect_impl b s =
     (let s1 = s\<lparr>bisection := Some b\<rparr>;
          s2 = s1\<lparr>step_num := 0\<rparr>;
          s3 = s2\<lparr>signals := signals s2 @ [Started b]\<rparr>
      in s3\<lparr>timers := timers s3 @ [(200, CB_bisect_next)]\<rparr>)"

text \<open>
  \<^verbatim>\<open>GuiBisector._bisect_next\<close>. The first component of the result is the exception that
  leaves the slot, if any; the state beside it is the one reached when it was raised.
\<close>

definition bisect_next ::
  "('b, 'm, 'x) bisection_ops_scheme \<Rightarrow> ('b, 'm) gui_bisector \<Rightarrow> exn option \<times> ('b, 'm) gui_bisector" where
  "bisect_next ops s =
     (let s1 = s\<lparr>step_num := step_num s + 1\<rparr>;
          s2 = s1\<lparr>signals := signals s1 @ [StepStarted (bisection s1) (step_num s1)]\<rparr>
      in case bisection s2 of
           None \<Rightarrow> (Some AttributeError, s2)
         | Some b \<Rightarrow>
            (case search_mid_point ops b of
               (Inl e, b1) \<Rightarrow>
                 if is_MozRegressionError e
                 then (None, finish_on_exception e (Some b1) (s2\<lparr>bisection := Some b1\<rparr>))
                 else (Some e, s2\<lparr>bisection := Some b1\<rparr>)
             | (Inr m, b1) \<Rightarrow>
                 (let s3 = s2\<lparr>bisection := Some b1, mid := Some m\<rparr>;
                      (result, b2) = init_handler ops m b1;
                      s4 = s3\<lparr>bisection := Some b2\<rparr>
                  in if result \<noteq> RUNNING ops
                     then (None, s4\<lparr>signals := signals s4 @ [Finished (Some b2) result]\<rparr>)
                     else
                       (let (dm, bi) = focus_download ops (handler_build_infos ops m b2)
                                         (download_manager s4);
                            s5 = s4\<lparr>build_infos := Some bi, download_manager := dm\<rparr>
                        in (None, s5\<lparr>signals := signals s5 @
                                     [StepBuildFound (Some b2) (step_num s5) bi]\<rparr>)))))"

text \<open>
  Modelled from the spec: \<^verbatim>\<open>Bisection.evaluate\<close>, which is not part of the source file.
  The sequencer ``invokes EvaluationGate's evaluate path with the BuildDescriptor'': the
  call reaches \<^verbatim>\<open>GuiTestRunner.evaluate\<close> of the runner the \<^verbatim>\<open>Bisection\<close> was built with.
\<close>

definition bisection_evaluate ::
  "(build_info option \<Rightarrow> build_info) \<Rightarrow> build_info option \<Rightarrow> gui_test_runner \<Rightarrow> gui_test_runner" where
  "bisection_evaluate app_info_of build_info tr = evaluate app_info_of build_info tr"

text \<open>\<^verbatim>\<open>GuiBisector._evaluate\<close>\<close>

definition evaluate_slot ::
  "('b, 'm, 'x) bisection_ops_scheme \<Rightarrow> ('b, 'm) gui_bisector \<Rightarrow> exn option \<times> ('b, 'm) gui_bisector" where
  "evaluate_slot ops s =
     (case bisection s of
        None \<Rightarrow> (Some AttributeError, s)
      | Some b \<Rightarrow>
          (None, s\<lparr>test_runner :=
                     bisection_evaluate (get_app_info ops) (build_infos s) (test_runner s)\<rparr>))"

text \<open>\<^verbatim>\<open>GuiBisector._build_dl_finished\<close>\<close>

definition build_dl_finished ::
  "download \<Rightarrow> ('b, 'm) gui_bisector \<Rightarrow> exn option \<times> ('b, 'm) gui_bisector" where
  "build_dl_finished dl s =
     (case build_infos s of
        None \<Rightarrow> (Some TypeError, s)
      | Some bi \<Rightarrow>
         (case bi ''build_path'' of
            None \<Rightarrow> (Some (KeyError ''build_path''), s)
          | Some path \<Rightarrow>
              if \<not> dl_dest dl = path then (None, s)
              else if canceled dl \<or> dl_error dl \<noteq> None then (None, s)
              else (None, s\<lparr>timers := timers s @ [(0, CB_evaluate)]\<rparr>)))"

text \<open>\<^verbatim>\<open>GuiBisector._evaluate_finished\<close>\<close>

definition evaluate_finished ::
  "('b, 'm, 'x) bisection_ops_scheme \<Rightarrow> ('b, 'm) gui_bisector \<Rightarrow> exn option \<times> ('b, 'm) gui_bisector" where
  "evaluate_finished ops s =
     (case bisection s of
        None \<Rightarrow> (Some AttributeError, s)
      | Some b \<Rightarrow>
         (let b1 = update_build_info ops (mid s) (app_info (test_runner s)) b;
              s1 = s\<lparr>bisection := Some b1\<rparr>;
              s2 = s1\<lparr>signals := signals s1 @
                       [StepFinished (Some b1) (step_num s1) (verdict (test_runner s1))]\<rparr>;
              (result, b2) = handle_verdict ops (mid s2) (verdict (test_runner s2)) b1;
              s3 = s2\<lparr>bisection := Some b2\<rparr>
          in if result \<noteq> RUNNING ops
             then (None, s3\<lparr>signals := signals s3 @ [Finished (Some b2) result]\<rparr>)
             else (None, s3\<lparr>timers := timers s3 @ [(0, CB_bisect_next)]\<rparr>)))"

subsection \<open>A run of the bisector\<close>

text \<open>
  What reaches the bisector from outside a slot: a pending single-shot timer expires, the
  download manager reports that a download has ended (the signal is connected to
  \<^verbatim>\<open>_build_dl_finished\<close>), or the user's verdict arrives through \<^verbatim>\<open>GuiTestRunner.finish\<close>
  (whose signal is connected to \<^verbatim>\<open>_evaluate_finished\<close>). An exception that leaves a slot is
  reported by the event loop, which goes on with the next event.
\<close>

datatype stimulus = Timeout nat callback | DownloadDone download | UserVerdict string

definition deliver ::
  "('b, 'm, 'x) bisection_ops_scheme \<Rightarrow> stimulus \<Rightarrow> ('b, 'm) gui_bisector \<Rightarrow>
   exn option \<times> ('b, 'm) gui_bisector" where
  "deliver ops stim s =
     (case stim of
        Timeout d cb \<Rightarrow>
          if (d, cb) \<in> set (timers s)
          then (let s1 = s\<lparr>timers := remove1 (d, cb) (timers s)\<rparr>
                in case cb of
                     CB_bisect_next \<Rightarrow> bisect_next ops s1
                   | CB_evaluate \<Rightarrow> evaluate_slot ops s1)
          else (None, s)
      | DownloadDone dl \<Rightarrow>
          build_dl_finished dl
            (s\<lparr>download_manager := download_finished ops dl (download_manager s)\<rparr>)
      | UserVerdict v \<Rightarrow>
          (case finish v (test_runner s) of
             Inl e \<Rightarrow> (Some e, s)
           | Inr tr \<Rightarrow> evaluate_finished ops (s\<lparr>test_runner := tr\<rparr>)))"

fun run ::
  "('b, 'm, 'x) bisection_ops_scheme \<Rightarrow> stimulus list \<Rightarrow> ('b, 'm) gui_bisector \<Rightarrow>
   ('b, 'm) gui_bisector" where
  "run ops [] s = s"
| "run ops (stim # stims) s = run ops stims (snd (deliver ops stim s))"

text \<open>The step indices carried by the \<^verbatim>\<open>step_started\<close> emissions, in order.\<close>

fun step_indices :: "'b signal list \<Rightarrow> int list" where
  "step_indices [] = []"
| "step_indices (StepStarted b n # sigs) = n # step_indices sigs"
| "step_indices (sig # sigs) = step_indices sigs"

text \<open>The result codes carried by the \<^verbatim>\<open>finished\<close> emissions, in order.\<close>

fun finished_codes :: "'b signal list \<Rightarrow> int list" where
  "finished_codes [] = []"
| "finished_codes (Finished b code # sigs) = code # finished_codes sigs"
| "finished_codes (sig # sigs) = finished_codes sigs"

text \<open>The downloads announced by the \<^verbatim>\<open>download_started\<close> emissions, in order.\<close>

fun started_downloads :: "dm_signal list \<Rightarrow> download list" where
  "started_downloads [] = []"
| "started_downloads (DownloadStarted dl # sigs) = dl # started_downloads sigs"
| "started_downloads (sig # sigs) = started_downloads sigs"

text \<open>
  The step indices emitted since the run began are \<open>1, \<dots>, step_num\<close>; \<open>pre\<close> are the
  indices emitted before the run.
\<close>

definition counted :: "int list \<Rightarrow> ('b, 'm) gui_bisector \<Rightarrow> bool" where
  "counted pre s = (0 \<le> step_num s \<and> step_indices (signals s) = pre @ [1..step_num s])"

text \<open>
  The event is the completion the bisector waits for: a download that has ended at the
  \<^verbatim>\<open>build_path\<close> of the focused build, neither cancelled nor in error.
\<close>

fun focused_completion :: "build_info option \<Rightarrow> stimulus \<Rightarrow> bool" where
  "focused_completion (Some bi) (DownloadDone dl) =
     (bi ''build_path'' = Some (dl_dest dl) \<and> \<not> canceled dl \<and> dl_error dl = None)"
| "focused_completion bi stim = False"

text \<open>The bisector waits for nothing of its own: no timer is pending and no launcher is held.\<close>

definition idle :: "('b, 'm) gui_bisector \<Rightarrow> bool" where
  "idle s = (timers s = [] \<and> launcher (test_runner s) = None)"

text \<open>Nothing is under way: the bisector is idle and no build has been focused.\<close>

definition quiescent :: "('b, 'm) gui_bisector \<Rightarrow> bool" where
  "quiescent s = (idle s \<and> build_infos s = None)"

subsection \<open>The runner of the main window\<close>

record qthread =
  thread_running :: bool

text \<open>\<^verbatim>\<open>QMessageBox.StandardButton\<close>\<close>

datatype standard_button =
    NoButton | Ok | Save | SaveAll | Open | Yes | YesToAll | No | NoToAll | Abort
  | Retry | Ignore | Close | Cancel | Discard | Help | Apply | Reset | RestoreDefaults

datatype dialog = Question | Warning | Critical | Information

text \<open>A message box shown on the main window: kind, title, text.\<close>

datatype ui_event = MessageBox dialog string string

record ('b, 'm) bisect_runner =
  bisector :: "('b, 'm) gui_bisector option"
  thread :: "qthread option"
  mainwindow :: "ui_event list"


text \<open>
  What the user can do with the box \<^verbatim>\<open>BisectRunner.evaluate\<close> opens. The call
  \<^verbatim>\<open>QMessageBox.question(..., buttons=QMessageBox.Yes | QMessageBox.No)\<close> offers the two
  buttons \<^verbatim>\<open>Yes\<close> and \<^verbatim>\<open>No\<close> and returns the one that is clicked; Esc or closing the
  box activates its escape button, which is \<^verbatim>\<open>No\<close> when these two are offered.
\<close>

datatype user_answer = ClicksYes | ClicksNo | Dismisses

fun question_yes_no :: "user_answer \<Rightarrow> standard_button" where
  "question_yes_no ClicksYes = Yes"
| "question_yes_no ClicksNo = No"
| "question_yes_no Dismisses = No"

text \<open>
  \<^verbatim>\<open>BisectRunner.evaluate\<close>. \<^verbatim>\<open>finish\<close> emits \<^verbatim>\<open>evaluate_finished\<close>, which is connected
  to the bisector's \<^verbatim>\<open>_evaluate_finished\<close>; the slot runs on the runner that \<^verbatim>\<open>finish\<close>
  leaves. The first component of the result is the exception that leaves \<^verbatim>\<open>finish\<close>, or
  the one the slot ends with.
\<close>

definition runner_evaluate ::
  "('b, 'm, 'x) bisection_ops_scheme \<Rightarrow> user_answer \<Rightarrow> ('b, 'm) bisect_runner \<Rightarrow>
   exn option \<times> ('b, 'm) bisect_runner" where
  "runner_evaluate ops answer r =
     (let r1 = r\<lparr>mainwindow := mainwindow r @
                    [MessageBox Question ''Build Evaluation'' ''Is that good ?'']\<rparr>;
          res = question_yes_no answer;
          v = ''g'';
          v = (if res = No then ''b'' else v)
      in case bisector r1 of
           None \<Rightarrow> (Some AttributeError, r1)
         | Some b \<Rightarrow>
            (case finish v (test_runner b) of
               Inl e \<Rightarrow> (Some e, r1)
             | Inr tr \<Rightarrow>
                 (let (x, b1) = evaluate_finished ops (b\<lparr>test_runner := tr\<rparr>)
                  in (x, r1\<lparr>bisector := Some b1\<rparr>))))"


subsection \<open>A concrete handler\<close>

text \<open>
  A small instance of the parameters, used to run the model on concrete inputs: the
  \<^verbatim>\<open>Bisection\<close> state is a range of build numbers \<open>(lo, hi)\<close>, a mid point is a build
  number. Searching an empty range raises a \<^verbatim>\<open>MozRegressionError\<close>; a range of one build
  has no data, a range of two builds is finished. A build's file name is its url.
\<close>

definition ex_search :: "nat \<times> nat \<Rightarrow> (exn + nat) \<times> (nat \<times> nat)" where
  "ex_search b =
     (if snd b < fst b then (Inl (MozRegressionError ''no builds in range''), b)
      else (Inr ((fst b + snd b) div 2), b))"

definition ex_init :: "nat \<Rightarrow> nat \<times> nat \<Rightarrow> int \<times> (nat \<times> nat)" where
  "ex_init m b = (if snd b = fst b then 1 else if snd b = fst b + 1 then 2 else 0, b)"

definition ex_verdict :: "nat option \<Rightarrow> string option \<Rightarrow> nat \<times> nat \<Rightarrow> int \<times> (nat \<times> nat)" where
  "ex_verdict m v b =
     (case m of
        None \<Rightarrow> (0, b)
      | Some k \<Rightarrow> if v = Some ''g'' then (0, (k, snd b)) else (0, (fst b, k)))"

definition ex_build_infos :: "nat \<Rightarrow> nat \<times> nat \<Rightarrow> build_info" where
  "ex_build_infos m b = [''build_url'' \<mapsto> replicate m CHR ''x'']"

definition ex_extract :: "build_info \<Rightarrow> string \<times> string" where
  "ex_extract bi = (case bi ''build_url'' of None \<Rightarrow> ([], []) | Some u \<Rightarrow> (u, u))"

definition ex_ops :: "(nat \<times> nat, nat) bisection_ops" where
  "ex_ops =
     \<lparr>extract_download_info = ex_extract,
      get_dest = (\<lambda>fname. ''/tmp/'' @ fname),
      already_downloaded = (\<lambda>dest. False),
      base_download_finished = (\<lambda>task. filter (\<lambda>dl. dl_dest dl \<noteq> dl_dest task)),
      RUNNING = 0,
      NO_DATA = 1,
      search_mid_point = ex_search,
      init_handler = ex_init,
      handler_build_infos = ex_build_infos,
      update_build_info = (\<lambda>m info b. b),
      handle_verdict = ex_verdict,
      get_app_info = (\<lambda>bi. Map.empty)\<rparr>"

text \<open>The same handler with every destination already on disk.\<close>

definition ex_ops_on_disk :: "(nat \<times> nat, nat) bisection_ops" where
  "ex_ops_on_disk = ex_ops\<lparr>already_downloaded := (\<lambda>dest. True)\<rparr>"

text \<open>
  The same handler over a network that fails: the search raises an exception that is
  not a \<^verbatim>\<open>MozRegressionError\<close>.
\<close>

definition ex_ops_crash :: "(nat \<times> nat, nat) bisection_ops" where
  "ex_ops_crash =
     ex_ops\<lparr>search_mid_point := (\<lambda>b. (Inl (OtherException ''connection reset''), b))\<rparr>"

text \<open>A manager that tracks the downloads of two other builds.\<close>

definition ex_download :: "string \<Rightarrow> download" where
  "ex_download u =
     \<lparr>dl_url = u, dl_dest = ''/tmp/'' @ u, canceled = False, dl_error = None,
      progress_connected = True\<rparr>"

definition ex_manager :: download_manager where
  "ex_manager = \<lparr>downloads = [ex_download ''x'', ex_download ''xxx''], dm_signals = []\<rparr>"

text \<open>A bisector in the middle of a run, and a runner that holds it.\<close>

definition ex_bisector :: "(nat \<times> nat, nat) gui_bisector" where
  "ex_bisector = init_gui_bisector\<lparr>download_manager := ex_manager, bisection := Some (0, 8)\<rparr>"

definition ex_runner :: "(nat \<times> nat, nat) bisect_runner" where
  "ex_runner =
     \<lparr>bisector = Some ex_bisector, thread = Some \<lparr>thread_running = True\<rparr>, mainwindow = []\<rparr>"

text \<open>The bisector once the build \<open>xxx\<close> has been focused.\<close>

definition ex_focused :: "(nat \<times> nat, nat) gui_bisector" where
  "ex_focused =
     ex_bisector\<lparr>build_infos := Some [''build_url'' \<mapsto> ''xxx'', ''build_path'' \<mapsto> ''/tmp/xxx'']\<rparr>"

text \<open>A runner whose bisector is evaluating that build: the dialog is open.\<close>

definition ex_evaluating :: "(nat \<times> nat, nat) bisect_runner" where
  "ex_evaluating =
     ex_runner\<lparr>bisector := Some (snd (evaluate_slot ex_ops ex_focused))\<rparr>"


text \<open>
  The events of a run over the builds \<open>0..8\<close>: the first step, its download, its
  evaluation judged good, and the second step.
\<close>

definition ex_stimuli :: "stimulus list" where
  "ex_stimuli =
     [Timeout 200 CB_bisect_next,
      DownloadDone \<lparr>dl_url = ''xxxx'', dl_dest = ''/tmp/xxxx'', canceled = False,
                    dl_error = None, progress_connected = True\<rparr>,
      Timeout 0 CB_evaluate,
      UserVerdict ''g'',
      Timeout 0 CB_bisect_next]"

section \<open>Shared lemmas\<close>

subsection \<open>The download manager\<close>

lemma dests_cancel: "map dl_dest (downloads (cancel c dm)) = map dl_dest (downloads dm)"
  by (simp add: cancel_def comp_def)

lemma dests_set_progress:
  "map dl_dest (downloads (set_progress d dm)) = map dl_dest (downloads dm)"
  by (simp add: set_progress_def comp_def)

lemma canceled_set_progress:
  "dl \<in> set (downloads (set_progress d dm)) \<Longrightarrow>
   \<exists>dl0 \<in> set (downloads dm). dl_dest dl = dl_dest dl0 \<and> canceled dl = canceled dl0"
  by (auto simp: set_progress_def)

text \<open>\<^verbatim>\<open>download\<close> leaves the tracked downloads alone or adds one for a new destination.\<close>

lemma downloads_download:
  "downloads (snd (download ops url fname dm)) = downloads dm \<or>
   (get_dest ops fname \<notin> set (map dl_dest (downloads dm)) \<and>
    downloads (snd (download ops url fname dm)) =
      downloads dm @ [\<lparr>dl_url = url, dl_dest = get_dest ops fname, canceled = False,
                       dl_error = None, progress_connected = False\<rparr>])"
  by (auto simp: download_def download_started_def Let_def find_None_iff split: option.splits)

lemma keyed_cancel: "keyed (cancel c dm) = keyed dm"
  by (simp add: keyed_def dests_cancel)

lemma keyed_set_progress: "keyed (set_progress d dm) = keyed dm"
  by (simp add: keyed_def dests_set_progress)

lemma keyed_download: "keyed dm \<Longrightarrow> keyed (snd (download ops url fname dm))"
  using downloads_download [of ops url fname dm] by (auto simp: keyed_def)

lemma fst_focus_download:
  "fst (focus_download ops bi dm) =
     (let dm1 = cancel (Some (\<lambda>dl. build_dest ops bi \<noteq> dl_dest dl)) dm;
          r = download ops (fst (extract_download_info ops bi))
                (snd (extract_download_info ops bi)) dm1
      in case fst r of Some d \<Rightarrow> set_progress (dl_dest d) (snd r) | None \<Rightarrow> snd r)"
  by (auto simp add: focus_download_def build_dest_def Let_def split: prod.splits option.splits)

lemma keyed_focus_download: "keyed dm \<Longrightarrow> keyed (fst (focus_download ops bi dm))"
  by (simp add: fst_focus_download Let_def keyed_cancel keyed_download keyed_set_progress
      split: option.splits)

lemma others_canceled_cancel:
  "dl \<in> set (downloads (cancel (Some (\<lambda>dl. d \<noteq> dl_dest dl)) dm)) \<Longrightarrow>
   dl_dest dl \<noteq> d \<Longrightarrow> canceled dl"
  by (auto simp: cancel_def)

lemma others_canceled_download:
  assumes "\<forall>dl \<in> set (downloads dm). dl_dest dl \<noteq> get_dest ops fname \<longrightarrow> canceled dl"
  shows "\<forall>dl \<in> set (downloads (snd (download ops url fname dm))).
           dl_dest dl \<noteq> get_dest ops fname \<longrightarrow> canceled dl"
  using assms downloads_download [of ops url fname dm] by auto

lemma others_canceled_focus:
  assumes a: "dl \<in> set (downloads (fst (focus_download ops bi dm)))"
    and b: "dl_dest dl \<noteq> build_dest ops bi"
  shows "canceled dl"
proof -
  let ?dm1 = "cancel (Some (\<lambda>dl. build_dest ops bi \<noteq> dl_dest dl)) dm"
  let ?r = "download ops (fst (extract_download_info ops bi))
              (snd (extract_download_info ops bi)) ?dm1"
  have c: "\<forall>dl \<in> set (downloads ?dm1). dl_dest dl \<noteq> build_dest ops bi \<longrightarrow> canceled dl"
    using others_canceled_cancel by blast
  have d: "\<forall>dl \<in> set (downloads (snd ?r)). dl_dest dl \<noteq> build_dest ops bi \<longrightarrow> canceled dl"
    using others_canceled_download [of ?dm1 ops "snd (extract_download_info ops bi)"] c
    by (simp add: build_dest_def)
  show ?thesis
  proof (cases "fst ?r")
    case None
    then show ?thesis using a b d by (simp add: fst_focus_download Let_def)
  next
    case (Some x)
    then have "dl \<in> set (downloads (set_progress (dl_dest x) (snd ?r)))"
      using a by (simp add: fst_focus_download Let_def)
    then show ?thesis using canceled_set_progress b d by metis
  qed
qed

lemma at_most_one_active:
  "distinct (map f xs) \<Longrightarrow> \<forall>x \<in> set xs. P x \<longrightarrow> f x = d \<Longrightarrow> length (filter P xs) \<le> Suc 0"
proof (induction xs)
  case Nil
  then show ?case by simp
next
  case (Cons x xs)
  show ?case
  proof (cases "P x")
    case True
    then have "f x = d" using Cons.prems by simp
    then have "\<forall>y \<in> set xs. \<not> P y" using Cons.prems by (auto simp: image_iff)
    then have "filter P xs = []" by (simp add: filter_empty_conv)
    then show ?thesis by simp
  next
    case False
    then show ?thesis using Cons by simp
  qed
qed



text \<open>Cancelling is idempotent.\<close>

lemma cancel_twice: "cancel c (cancel c dm) = cancel c dm"
  by (cases c) (simp_all add: cancel_def comp_def)

subsection \<open>The signals of a run\<close>

lemma replicate_numeral: "replicate (numeral k) x = x # replicate (pred_numeral k) x"
  by (simp add: numeral_eq_Suc)

lemma step_indices_append: "step_indices (xs @ ys) = step_indices xs @ step_indices ys"
  by (induction xs rule: step_indices.induct) simp_all

lemma finished_codes_append: "finished_codes (xs @ ys) = finished_codes xs @ finished_codes ys"
  by (induction xs rule: finished_codes.induct) simp_all

lemma started_downloads_append:
  "started_downloads (xs @ ys) = started_downloads xs @ started_downloads ys"
  by (induction xs rule: started_downloads.induct) simp_all

lemma bisect_next_steps:
  "step_num (snd (bisect_next ops s)) = step_num s + 1 \<and>
   step_indices (signals (snd (bisect_next ops s))) = step_indices (signals s) @ [step_num s + 1]"
  by (simp add: bisect_next_def finish_on_exception_def Let_def step_indices_append
      split: option.splits prod.splits sum.splits)

lemma evaluate_slot_steps:
  "step_num (snd (evaluate_slot ops s)) = step_num s \<and>
   signals (snd (evaluate_slot ops s)) = signals s"
  by (simp add: evaluate_slot_def split: option.splits)

lemma build_dl_finished_steps:
  "step_num (snd (build_dl_finished dl s)) = step_num s \<and>
   signals (snd (build_dl_finished dl s)) = signals s"
  by (simp add: build_dl_finished_def split: option.splits)

lemma evaluate_finished_steps:
  "step_num (snd (evaluate_finished ops s)) = step_num s \<and>
   step_indices (signals (snd (evaluate_finished ops s))) = step_indices (signals s)"
  by (simp add: evaluate_finished_def Let_def step_indices_append
      split: option.splits prod.splits)

lemma evaluate_finished_test_runner:
  "test_runner (snd (evaluate_finished ops s)) = test_runner s"
  by (simp add: evaluate_finished_def Let_def split: option.splits prod.splits)

text \<open>Every event keeps the step indices counted; rule by rule, following \<open>deliver\<close>.\<close>

lemma counted_deliver:
  assumes c: "counted pre s"
  shows "counted pre (snd (deliver ops stim s))"
proof (cases stim)
  case (Timeout d cb)
  show ?thesis
  proof (cases "(d, cb) \<in> set (timers s)")
    case False
    then show ?thesis using c Timeout by (simp add: deliver_def)
  next
    case True
    let ?s1 = "s\<lparr>timers := remove1 (d, cb) (timers s)\<rparr>"
    have c1: "counted pre ?s1" using c by (simp add: counted_def)
    show ?thesis
    proof (cases cb)
      case CB_bisect_next
      then have "snd (deliver ops stim s) = snd (bisect_next ops ?s1)"
        using True Timeout by (simp add: deliver_def Let_def)
      then show ?thesis using c1 bisect_next_steps [of ops ?s1]
        by (simp add: counted_def upto_rec2)
    next
      case CB_evaluate
      then have "snd (deliver ops stim s) = snd (evaluate_slot ops ?s1)"
        using True Timeout by (simp add: deliver_def Let_def)
      then show ?thesis using c1 evaluate_slot_steps [of ops ?s1]
        by (simp add: counted_def)
    qed
  qed
next
  case (DownloadDone dl)
  let ?s1 = "s\<lparr>download_manager := download_finished ops dl (download_manager s)\<rparr>"
  have "snd (deliver ops stim s) = snd (build_dl_finished dl ?s1)"
    using DownloadDone by (simp add: deliver_def)
  then show ?thesis using c build_dl_finished_steps [of dl ?s1]
    by (simp add: counted_def)
next
  case (UserVerdict v)
  show ?thesis
  proof (cases "finish v (test_runner s)")
    case (Inl e)
    then show ?thesis using c UserVerdict by (simp add: deliver_def)
  next
    case (Inr tr)
    let ?s1 = "s\<lparr>test_runner := tr\<rparr>"
    have "snd (deliver ops stim s) = snd (evaluate_finished ops ?s1)"
      using UserVerdict Inr by (simp add: deliver_def)
    then show ?thesis using c evaluate_finished_steps [of ops ?s1]
      by (simp add: counted_def)
  qed
qed

lemma counted_run: "counted pre s \<Longrightarrow> counted pre (run ops stims s)"
  by (induction stims arbitrary: s) (simp_all add: counted_deliver)

lemma counted_bisect_impl: "counted (step_indices (signals s)) (bisect_impl b s)"
  by (simp add: counted_def bisect_impl_def Let_def step_indices_append)

text \<open>
  An idle bisector is changed by no event but the completion it waits for: only its
  download manager moves, and it announces no new download.
\<close>

lemma idle_build_dl_finished:
  assumes "\<not> focused_completion (build_infos s) (DownloadDone dl)"
  shows "snd (build_dl_finished dl s) = s"
proof (cases "build_infos s")
  case None
  then show ?thesis by (simp add: build_dl_finished_def)
next
  case (Some bi)
  then show ?thesis using assms
    by (cases "bi ''build_path''") (auto simp: build_dl_finished_def)
qed

lemma idle_deliver:
  assumes i: "idle s" and n: "\<not> focused_completion (build_infos s) stim"
  shows "\<exists>dm. snd (deliver ops stim s) = s\<lparr>download_manager := dm\<rparr> \<and>
           started_downloads (dm_signals dm) = started_downloads (dm_signals (download_manager s))"
proof (cases stim)
  case (Timeout d cb)
  then have "snd (deliver ops stim s) = s\<lparr>download_manager := download_manager s\<rparr>"
    using i by (simp add: deliver_def idle_def)
  then show ?thesis by blast
next
  case (DownloadDone dl)
  let ?dm = "download_finished ops dl (download_manager s)"
  have "\<not> focused_completion (build_infos (s\<lparr>download_manager := ?dm\<rparr>)) (DownloadDone dl)"
    using n DownloadDone by simp
  then have "snd (build_dl_finished dl (s\<lparr>download_manager := ?dm\<rparr>)) = s\<lparr>download_manager := ?dm\<rparr>"
    by (rule idle_build_dl_finished)
  then have "snd (deliver ops stim s) = s\<lparr>download_manager := ?dm\<rparr>"
    using DownloadDone by (simp add: deliver_def)
  moreover have "started_downloads (dm_signals ?dm) =
      started_downloads (dm_signals (download_manager s))"
    by (simp add: download_finished_def Let_def started_downloads_append)
  ultimately show ?thesis by blast
next
  case (UserVerdict v)
  then have "snd (deliver ops stim s) = s\<lparr>download_manager := download_manager s\<rparr>"
    using i by (simp add: deliver_def idle_def finish_def)
  then show ?thesis by blast
qed

lemma idle_run:
  "idle s \<Longrightarrow> \<forall>stim \<in> set stims. \<not> focused_completion (build_infos s) stim \<Longrightarrow>
   \<exists>dm. run ops stims s = s\<lparr>download_manager := dm\<rparr> \<and>
     started_downloads (dm_signals dm) = started_downloads (dm_signals (download_manager s))"
proof (induction stims arbitrary: s)
  case Nil
  have "run ops [] s = s\<lparr>download_manager := download_manager s\<rparr>" by simp
  then show ?case by blast
next
  case (Cons stim stims)
  have "\<not> focused_completion (build_infos s) stim" using Cons.prems(2) by simp
  then obtain dm1 where 1: "snd (deliver ops stim s) = s\<lparr>download_manager := dm1\<rparr>"
    and 2: "started_downloads (dm_signals dm1) =
            started_downloads (dm_signals (download_manager s))"
    using idle_deliver [OF Cons.prems(1)] by blast
  let ?s1 = "s\<lparr>download_manager := dm1\<rparr>"
  have "idle ?s1"
    using Cons.prems(1) by (simp add: idle_def)
  moreover have "\<forall>stim \<in> set stims. \<not> focused_completion (build_infos ?s1) stim"
    using Cons.prems(2) by simp
  ultimately obtain dm2 where 3: "run ops stims ?s1 = ?s1\<lparr>download_manager := dm2\<rparr>"
    and 4: "started_downloads (dm_signals dm2) =
            started_downloads (dm_signals (download_manager ?s1))"
    using Cons.IH by blast
  have "run ops (stim # stims) s = s\<lparr>download_manager := dm2\<rparr>"
    using 1 3 by simp
  moreover have "started_downloads (dm_signals dm2) =
      started_downloads (dm_signals (download_manager s))"
    using 2 4 by simp
  ultimately show ?case by blast
qed

lemma quiescent_run:
  assumes "quiescent s"
  shows "\<exists>dm. run ops stims s = s\<lparr>download_manager := dm\<rparr> \<and>
     started_downloads (dm_signals dm) = started_downloads (dm_signals (download_manager s))"
proof -
  have "idle s" and "\<forall>stim \<in> set stims. \<not> focused_completion (build_infos s) stim"
    using assms by (simp_all add: quiescent_def)
  then show ?thesis by (rule idle_run)
qed

section \<open>The claims\<close>

text \<open>
  C1, as amended. If \<^verbatim>\<open>search_mid_point\<close> raises a \<^verbatim>\<open>MozRegressionError\<close> in a step of a
  run that has not finished, the step ends the run with the code \<^verbatim>\<open>Bisection.EXCEPTION\<close>:
  the exception is stored in the bisector's \<^verbatim>\<open>error\<close> field, the run has exactly one
  \<^verbatim>\<open>finished\<close> emission, the download manager and the test runner are left as they
  were, and no timer is pending, so that no later step runs. With no launcher held, and
  unless the download of the build focused before is reported complete once more, no
  later event makes the bisector emit a signal, start an evaluation or announce a
  download.
\<close>

theorem search_failure_ends_run:
  assumes "bisection s = Some b"
    and "search_mid_point ops b = (Inl e, b1)"
    and "is_MozRegressionError e"
    and "timers s = [(d, CB_bisect_next)]"
    and "finished_codes (signals s) = []"
  shows "deliver ops (Timeout d CB_bisect_next) s =
           (None, s\<lparr>bisection := Some b1, step_num := step_num s + 1, error := Some e,
                    signals := signals s @ [StepStarted (Some b) (step_num s + 1),
                                            Finished (Some b1) EXCEPTION],
                    timers := []\<rparr>)
       \<and> error (snd (deliver ops (Timeout d CB_bisect_next) s)) = Some e
       \<and> finished_codes (signals (snd (deliver ops (Timeout d CB_bisect_next) s))) = [EXCEPTION]
       \<and> download_manager (snd (deliver ops (Timeout d CB_bisect_next) s)) = download_manager s
       \<and> test_runner (snd (deliver ops (Timeout d CB_bisect_next) s)) = test_runner s
       \<and> timers (snd (deliver ops (Timeout d CB_bisect_next) s)) = []
       \<and> deliver ops (Timeout d' cb) (snd (deliver ops (Timeout d CB_bisect_next) s))
           = (None, snd (deliver ops (Timeout d CB_bisect_next) s))
       \<and> (launcher (test_runner s) = None
           \<and> (\<forall>stim \<in> set stims. \<not> focused_completion (build_infos s) stim) \<longrightarrow>
            signals (run ops (Timeout d CB_bisect_next # stims) s)
              = signals s @ [StepStarted (Some b) (step_num s + 1), Finished (Some b1) EXCEPTION]
            \<and> test_runner (run ops (Timeout d CB_bisect_next # stims) s) = test_runner s
            \<and> started_downloads (dm_signals (download_manager
                  (run ops (Timeout d CB_bisect_next # stims) s)))
                = started_downloads (dm_signals (download_manager s)))"
proof -
  let ?s1 = "s\<lparr>bisection := Some b1, step_num := step_num s + 1, error := Some e,
                signals := signals s @ [StepStarted (Some b) (step_num s + 1),
                                        Finished (Some b1) EXCEPTION],
                timers := []\<rparr>"
  have step: "deliver ops (Timeout d CB_bisect_next) s = (None, ?s1)"
    using assms by (simp add: deliver_def bisect_next_def finish_on_exception_def Let_def)
  have later: "deliver ops (Timeout d' cb) ?s1 = (None, ?s1)"
    by (simp add: deliver_def)
  have ever: "signals (run ops stims ?s1) = signals ?s1
      \<and> test_runner (run ops stims ?s1) = test_runner s
      \<and> started_downloads (dm_signals (download_manager (run ops stims ?s1)))
          = started_downloads (dm_signals (download_manager s))"
    if l: "launcher (test_runner s) = None"
      and n: "\<forall>stim \<in> set stims. \<not> focused_completion (build_infos s) stim"
  proof -
    have "idle ?s1" using l by (simp add: idle_def)
    moreover have "\<forall>stim \<in> set stims. \<not> focused_completion (build_infos ?s1) stim"
      using n by simp
    ultimately obtain dm where "run ops stims ?s1 = ?s1\<lparr>download_manager := dm\<rparr>"
      and "started_downloads (dm_signals dm) =
           started_downloads (dm_signals (download_manager ?s1))"
      using idle_run by blast
    then show ?thesis by simp
  qed
  show ?thesis
    using step later ever assms(5) by (simp add: finished_codes_append)
qed

theorem search_failure_ends_run_witness:
  "finished_codes (signals (snd (deliver ex_ops (Timeout 200 CB_bisect_next)
      (bisect_impl (5, 2) init_gui_bisector)))) = [- 1]
   \<and> error (snd (deliver ex_ops (Timeout 200 CB_bisect_next)
      (bisect_impl (5, 2) init_gui_bisector))) = Some (MozRegressionError ''no builds in range'')"
proof -
  let ?s = "bisect_impl (5, 2) (init_gui_bisector :: (nat \<times> nat, nat) gui_bisector)"
  have 1: "bisection ?s = Some (5, 2)" by (simp add: bisect_impl_def Let_def)
  have 2: "search_mid_point ex_ops (5, 2) =
      (Inl (MozRegressionError ''no builds in range''), (5, 2))"
    by (simp add: ex_ops_def ex_search_def)
  have 3: "is_MozRegressionError (MozRegressionError ''no builds in range'')" by simp
  have 4: "timers ?s = [(200, CB_bisect_next)]"
    by (simp add: bisect_impl_def Let_def init_gui_bisector_def)
  have 5: "finished_codes (signals ?s) = []"
    by (simp add: bisect_impl_def Let_def init_gui_bisector_def)
  have "error (snd (deliver ex_ops (Timeout 200 CB_bisect_next) ?s)) =
          Some (MozRegressionError ''no builds in range'')
     \<and> finished_codes (signals (snd (deliver ex_ops (Timeout 200 CB_bisect_next) ?s))) =
          [EXCEPTION]"
    using search_failure_ends_run [OF 1 2 3 4 5] by blast
  then show ?thesis by (simp add: EXCEPTION_def)
qed

text \<open>
  The claim as stated fails: a search that raises another exception leaves the slot
  through the \<^verbatim>\<open>except MozRegressionError\<close> clause; no \<^verbatim>\<open>finished\<close> is emitted and no
  error is stored.
\<close>

theorem uncaught_search_failure_counterexample:
  "fst (search_mid_point ex_ops_crash (0, 8)) = Inl (OtherException ''connection reset'')
   \<and> fst (bisect_next ex_ops_crash ex_bisector) = Some (OtherException ''connection reset'')
   \<and> signals (snd (bisect_next ex_ops_crash ex_bisector)) = [StepStarted (Some (0, 8)) 1]
   \<and> finished_codes (signals (snd (bisect_next ex_ops_crash ex_bisector))) = []
   \<and> error (snd (bisect_next ex_ops_crash ex_bisector)) = None"
  by (simp add: bisect_next_def ex_ops_crash_def ex_bisector_def init_gui_bisector_def Let_def)

text \<open>
  C2. The counter is reset to 0 when the run's \<^verbatim>\<open>Bisection\<close> is created and every step
  adds exactly 1 to it and emits \<^verbatim>\<open>step_started\<close> with the new value. Whatever events
  reach the bisector during the run, the step indices emitted since its beginning are
  \<open>1, 2, \<dots>\<close> up to the number of steps started, without a gap.
\<close>

theorem step_started_indices_count_up:
  "step_num (bisect_impl b s) = 0
   \<and> step_num (snd (bisect_next ops s')) = step_num s' + 1
   \<and> step_indices (signals (snd (bisect_next ops s')))
       = step_indices (signals s') @ [step_num s' + 1]
   \<and> step_indices (signals (run ops stims (bisect_impl b s)))
       = step_indices (signals s) @ [1..step_num (run ops stims (bisect_impl b s))]"
proof -
  have "counted (step_indices (signals s)) (run ops stims (bisect_impl b s))"
    using counted_bisect_impl by (rule counted_run)
  then show ?thesis
    using bisect_next_steps [of ops s'] by (simp add: counted_def bisect_impl_def Let_def)
qed

theorem step_started_indices_count_up_witness:
  "step_indices (signals (run ex_ops ex_stimuli (bisect_impl (0, 8) init_gui_bisector))) = [1, 2]"
proof -
  let ?s = "run ex_ops ex_stimuli (bisect_impl (0, 8) init_gui_bisector)"
  have n: "step_num ?s = 2"
    by (simp add: ex_stimuli_def bisect_impl_def init_gui_bisector_def init_download_manager_def
        init_test_runner_def deliver_def bisect_next_def evaluate_slot_def bisection_evaluate_def build_dl_finished_def
        evaluate_finished_def finish_def evaluate_def focus_download_def download_def
        download_started_def download_finished_def cancel_def set_progress_def ex_ops_def
        ex_search_def ex_init_def ex_verdict_def ex_build_infos_def ex_extract_def Let_def
        replicate_numeral)
  have "step_indices (signals ?s) =
      step_indices (signals (init_gui_bisector :: (nat \<times> nat, nat) gui_bisector)) @ [1..step_num ?s]"
    using step_started_indices_count_up [of "(0, 8)" init_gui_bisector ex_ops init_gui_bisector ex_stimuli]
    by blast
  then show ?thesis
    using n by (simp add: init_gui_bisector_def upto_rec1)
qed

text \<open>
  C3. After \<^verbatim>\<open>focus_download(B)\<close> every tracked download whose destination differs from
  the destination computed for \<open>B\<close> has been cancelled; in a manager that tracks its
  downloads by destination, at most one tracked download is left that is not cancelled,
  and its destination is the one of \<open>B\<close>.
\<close>

theorem focus_download_cancels_others:
  assumes "keyed dm"
  shows "(\<forall>dl \<in> set (downloads (fst (focus_download ops bi dm))).
            dl_dest dl \<noteq> build_dest ops bi \<longrightarrow> canceled dl)
       \<and> length (active_downloads (fst (focus_download ops bi dm))) \<le> 1
       \<and> (\<forall>dl \<in> set (active_downloads (fst (focus_download ops bi dm))).
            dl_dest dl = build_dest ops bi)
       \<and> keyed (fst (focus_download ops bi dm))"
proof -
  let ?dm = "fst (focus_download ops bi dm)"
  have others: "\<forall>dl \<in> set (downloads ?dm). dl_dest dl \<noteq> build_dest ops bi \<longrightarrow> canceled dl"
    using others_canceled_focus by blast
  have k: "keyed ?dm"
    using assms by (rule keyed_focus_download)
  then have "distinct (map dl_dest (downloads ?dm))"
    by (simp add: keyed_def)
  moreover have "\<forall>dl \<in> set (downloads ?dm). \<not> canceled dl \<longrightarrow> dl_dest dl = build_dest ops bi"
    using others by blast
  ultimately have "length (filter (\<lambda>dl. \<not> canceled dl) (downloads ?dm)) \<le> Suc 0"
    by (rule at_most_one_active)
  then show ?thesis using others k by (auto simp: active_downloads_def)
qed

theorem focus_download_cancels_others_witness:
  "keyed ex_manager
   \<and> length (active_downloads (fst (focus_download ex_ops (ex_build_infos 3 (0, 8)) ex_manager))) \<le> 1
   \<and> map (\<lambda>dl. (dl_dest dl, canceled dl))
       (downloads (fst (focus_download ex_ops (ex_build_infos 3 (0, 8)) ex_manager)))
       = [(''/tmp/x'', True), (''/tmp/xxx'', False)]"
proof -
  have k: "keyed ex_manager"
    by (simp add: keyed_def ex_manager_def ex_download_def)
  have "length (active_downloads (fst (focus_download ex_ops (ex_build_infos 3 (0, 8)) ex_manager))) \<le> 1"
    using focus_download_cancels_others [OF k] by blast
  moreover have "map (\<lambda>dl. (dl_dest dl, canceled dl))
       (downloads (fst (focus_download ex_ops (ex_build_infos 3 (0, 8)) ex_manager)))
       = [(''/tmp/x'', True), (''/tmp/xxx'', False)]"
    by (simp add: focus_download_def download_def cancel_def set_progress_def ex_manager_def
        ex_download_def ex_ops_def ex_build_infos_def ex_extract_def Let_def replicate_numeral)
  ultimately show ?thesis using k by simp
qed

text \<open>
  C4. A download-finished event whose destination differs from the \<^verbatim>\<open>build_path\<close> of
  the focused build leaves the bisector as it is; so does one whose destination matches
  but whose download is cancelled or carries an error. An evaluation is scheduled only
  for a matching completion that is neither cancelled nor in error.
\<close>

theorem build_dl_finished_filters:
  assumes "build_infos s = Some bi" and "bi ''build_path'' = Some path"
  shows "build_dl_finished dl s =
           (None, if dl_dest dl = path \<and> \<not> canceled dl \<and> dl_error dl = None
                  then s\<lparr>timers := timers s @ [(0, CB_evaluate)]\<rparr> else s)"
  using assms by (simp add: build_dl_finished_def)

theorem build_dl_finished_filters_witness:
  "build_dl_finished (ex_download ''xxx'') ex_focused
     = (None, ex_focused\<lparr>timers := [(0, CB_evaluate)]\<rparr>)
   \<and> build_dl_finished (ex_download ''x'') ex_focused = (None, ex_focused)
   \<and> build_dl_finished ((ex_download ''xxx'')\<lparr>canceled := True\<rparr>) ex_focused = (None, ex_focused)
   \<and> build_dl_finished ((ex_download ''xxx'')\<lparr>dl_error := Some ''timeout''\<rparr>) ex_focused
     = (None, ex_focused)"
proof -
  let ?bi = "[''build_url'' \<mapsto> ''xxx'', ''build_path'' \<mapsto> ''/tmp/xxx'']"
  have 1: "build_infos ex_focused = Some ?bi" by (simp add: ex_focused_def)
  have 2: "?bi ''build_path'' = Some ''/tmp/xxx''" by simp
  have t: "timers ex_focused = []"
    by (simp add: ex_focused_def ex_bisector_def init_gui_bisector_def)
  show ?thesis
    using build_dl_finished_filters [OF 1 2, of "ex_download ''xxx''"]
      build_dl_finished_filters [OF 1 2, of "ex_download ''x''"]
      build_dl_finished_filters [OF 1 2, of "(ex_download ''xxx'')\<lparr>canceled := True\<rparr>"]
      build_dl_finished_filters [OF 1 2, of "(ex_download ''xxx'')\<lparr>dl_error := Some ''timeout''\<rparr>"]
      t
    by (simp add: ex_download_def)
qed

text \<open>
  C5. If \<^verbatim>\<open>init_handler\<close> returns a code other than \<^verbatim>\<open>RUNNING\<close> in the first step of a
  run, the run emits exactly one \<^verbatim>\<open>finished\<close>, which carries that code; the step leaves
  the download manager and the test runner as they were and schedules nothing, and no
  later event makes the bisector emit a signal, start an evaluation or announce a
  download.
\<close>

theorem init_not_running_first_step:
  assumes "search_mid_point ops b = (Inr m, b1)"
    and "init_handler ops m b1 = (code, b2)"
    and "code \<noteq> RUNNING ops"
    and "quiescent s"
  shows "run ops [Timeout 200 CB_bisect_next] (bisect_impl b s) =
           s\<lparr>bisection := Some b2, mid := Some m, step_num := 1,
             signals := signals s @ [Started b, StepStarted (Some b) 1, Finished (Some b2) code]\<rparr>
       \<and> signals (run ops (Timeout 200 CB_bisect_next # stims) (bisect_impl b s))
           = signals s @ [Started b, StepStarted (Some b) 1, Finished (Some b2) code]
       \<and> finished_codes (signals (run ops (Timeout 200 CB_bisect_next # stims) (bisect_impl b s)))
           = finished_codes (signals s) @ [code]
       \<and> test_runner (run ops (Timeout 200 CB_bisect_next # stims) (bisect_impl b s))
           = test_runner s
       \<and> started_downloads (dm_signals (download_manager
             (run ops (Timeout 200 CB_bisect_next # stims) (bisect_impl b s))))
           = started_downloads (dm_signals (download_manager s))
       \<and> timers (run ops (Timeout 200 CB_bisect_next # stims) (bisect_impl b s)) = []"
proof -
  let ?s1 = "s\<lparr>bisection := Some b2, mid := Some m, step_num := 1,
               signals := signals s @ [Started b, StepStarted (Some b) 1, Finished (Some b2) code]\<rparr>"
  have step: "snd (deliver ops (Timeout 200 CB_bisect_next) (bisect_impl b s)) = ?s1"
    using assms
    by (simp add: deliver_def bisect_impl_def bisect_next_def Let_def quiescent_def idle_def)
  have "quiescent ?s1" using assms(4) by (simp add: quiescent_def idle_def)
  then obtain dm where "run ops stims ?s1 = ?s1\<lparr>download_manager := dm\<rparr>"
    and "started_downloads (dm_signals dm) = started_downloads (dm_signals (download_manager ?s1))"
    using quiescent_run by blast
  then show ?thesis
    using step assms(4) by (simp add: finished_codes_append quiescent_def idle_def)
qed

theorem init_not_running_first_step_witness:
  "signals (run ex_ops [Timeout 200 CB_bisect_next, Timeout 0 CB_evaluate, UserVerdict ''g'']
       (bisect_impl (3, 4) init_gui_bisector))
     = [Started (3, 4), StepStarted (Some (3, 4)) 1, Finished (Some (3, 4)) 2]
   \<and> test_runner (run ex_ops [Timeout 200 CB_bisect_next, Timeout 0 CB_evaluate, UserVerdict ''g'']
       (bisect_impl (3, 4) init_gui_bisector)) = init_test_runner"
proof -
  let ?s = "init_gui_bisector :: (nat \<times> nat, nat) gui_bisector"
  have 1: "search_mid_point ex_ops (3, 4) = (Inr 3, (3, 4))"
    by (simp add: ex_ops_def ex_search_def)
  have 2: "init_handler ex_ops 3 (3, 4) = (2, (3, 4))"
    by (simp add: ex_ops_def ex_init_def)
  have 3: "(2 :: int) \<noteq> RUNNING ex_ops"
    by (simp add: ex_ops_def)
  have 4: "quiescent ?s"
    by (simp add: quiescent_def idle_def init_gui_bisector_def init_test_runner_def)
  have "signals (run ex_ops (Timeout 200 CB_bisect_next # [Timeout 0 CB_evaluate, UserVerdict ''g''])
          (bisect_impl (3, 4) ?s))
        = signals ?s @ [Started (3, 4), StepStarted (Some (3, 4)) 1, Finished (Some (3, 4)) 2]
      \<and> test_runner (run ex_ops (Timeout 200 CB_bisect_next # [Timeout 0 CB_evaluate, UserVerdict ''g''])
          (bisect_impl (3, 4) ?s)) = test_runner ?s"
    using init_not_running_first_step [OF 1 2 3 4] by blast
  then show ?thesis
    by (simp add: init_gui_bisector_def)
qed

text \<open>
  C6. \<^verbatim>\<open>finish(verdict)\<close> fails with an assertion error when no launcher is in flight,
  as on a new runner. After \<^verbatim>\<open>evaluate\<close> it stops the launched build, records the
  verdict, emits \<^verbatim>\<open>evaluate_finished\<close> and clears the launcher; a second \<^verbatim>\<open>finish\<close> fails
  again, and a following \<^verbatim>\<open>evaluate\<close> holds a new launcher.
\<close>

theorem finish_needs_evaluate:
  "finish v init_test_runner = Inl AssertionError
   \<and> (launcher tr = None \<longrightarrow> finish v tr = Inl AssertionError)
   \<and> finish v (evaluate g bi tr) =
        Inr (tr\<lparr>app_info := g bi, verdict := Some v,
                tr_trace := tr_trace tr @ [LauncherStarted bi, EvaluateStarted,
                                           LauncherStopped bi, EvaluateFinished],
                launcher := None\<rparr>)
   \<and> (finish v tr = Inr tr' \<longrightarrow>
        launcher tr \<noteq> None
        \<and> launcher tr' = None \<and> verdict tr' = Some v
        \<and> finish v' tr' = Inl AssertionError
        \<and> launcher (evaluate g bi' tr') = Some \<lparr>launcher_build = bi', launcher_running = True\<rparr>)"
  by (auto simp: finish_def evaluate_def init_test_runner_def Let_def split: option.splits)

theorem finish_needs_evaluate_witness:
  "launcher init_test_runner = None
   \<and> finish ''g'' init_test_runner = Inl AssertionError
   \<and> finish ''b'' (evaluate (\<lambda>bi. Map.empty) None init_test_runner) =
        Inr (init_test_runner\<lparr>verdict := Some ''b'',
               tr_trace := [LauncherStarted None, EvaluateStarted,
                            LauncherStopped None, EvaluateFinished]\<rparr>)"
proof -
  have l: "launcher init_test_runner = None"
    by (simp add: init_test_runner_def)
  have "launcher init_test_runner = None \<longrightarrow> finish ''g'' init_test_runner = Inl AssertionError"
    using finish_needs_evaluate [of "''g''" init_test_runner] by blast
  then have 1: "finish ''g'' init_test_runner = Inl AssertionError"
    using l by simp
  have "finish ''b'' (evaluate (\<lambda>bi. Map.empty) None init_test_runner) =
        Inr (init_test_runner\<lparr>app_info := Map.empty, verdict := Some ''b'',
               tr_trace := tr_trace init_test_runner @ [LauncherStarted None, EvaluateStarted,
                           LauncherStopped None, EvaluateFinished],
               launcher := None\<rparr>)"
    using finish_needs_evaluate [of "''b''" init_test_runner "\<lambda>bi. Map.empty" None] by blast
  then show ?thesis
    using l 1 by (simp add: init_test_runner_def)
qed





text \<open>
  C9. \<^verbatim>\<open>focus_download(build_info)\<close> sets \<^verbatim>\<open>build_info['build_path']\<close> to the destination
  computed for the build, whatever the manager tracks and whether or not a download is
  started; \<^verbatim>\<open>_build_dl_finished\<close> compares the destination of a finished download with
  exactly this field.
\<close>

theorem focus_download_sets_build_path:
  "snd (focus_download ops bi dm) = bi(''build_path'' \<mapsto> build_dest ops bi)
   \<and> snd (focus_download ops bi dm) ''build_path'' = Some (build_dest ops bi)
   \<and> (build_infos s = Some (snd (focus_download ops bi dm)) \<longrightarrow>
        build_dl_finished dl s =
          (None, if dl_dest dl = build_dest ops bi \<and> \<not> canceled dl \<and> dl_error dl = None
                 then s\<lparr>timers := timers s @ [(0, CB_evaluate)]\<rparr> else s))"
  by (auto simp: focus_download_def build_dest_def build_dl_finished_def Let_def
      split: prod.splits)

theorem focus_download_sets_build_path_witness:
  "snd (focus_download ex_ops_on_disk (ex_build_infos 3 (0, 8)) init_download_manager) ''build_path''
     = Some ''/tmp/xxx''
   \<and> fst (focus_download ex_ops_on_disk (ex_build_infos 3 (0, 8)) init_download_manager)
     = init_download_manager
   \<and> snd (focus_download ex_ops (ex_build_infos 3 (0, 8)) ex_manager) ''build_path''
     = Some ''/tmp/xxx''
   \<and> started_downloads (dm_signals (fst (focus_download ex_ops (ex_build_infos 3 (0, 8)) ex_manager)))
     = []"
proof -
  have d1: "build_dest ex_ops_on_disk (ex_build_infos 3 (0, 8)) = ''/tmp/xxx''"
    by (simp add: build_dest_def ex_ops_on_disk_def ex_ops_def ex_build_infos_def ex_extract_def
        replicate_numeral)
  have d2: "build_dest ex_ops (ex_build_infos 3 (0, 8)) = ''/tmp/xxx''"
    by (simp add: build_dest_def ex_ops_def ex_build_infos_def ex_extract_def replicate_numeral)
  have 1: "snd (focus_download ex_ops_on_disk (ex_build_infos 3 (0, 8)) init_download_manager)
             ''build_path'' = Some ''/tmp/xxx''"
    using focus_download_sets_build_path
      [of ex_ops_on_disk "ex_build_infos 3 (0, 8)" init_download_manager,
       THEN conjunct2, THEN conjunct1] d1
    by simp
  have 2: "snd (focus_download ex_ops (ex_build_infos 3 (0, 8)) ex_manager) ''build_path''
             = Some ''/tmp/xxx''"
    using focus_download_sets_build_path
      [of ex_ops "ex_build_infos 3 (0, 8)" ex_manager, THEN conjunct2, THEN conjunct1] d2
    by simp
  have 3: "fst (focus_download ex_ops_on_disk (ex_build_infos 3 (0, 8)) init_download_manager)
             = init_download_manager"
    by (simp add: focus_download_def download_def cancel_def init_download_manager_def
        ex_ops_on_disk_def ex_ops_def ex_build_infos_def ex_extract_def Let_def)
  have 4: "started_downloads (dm_signals
             (fst (focus_download ex_ops (ex_build_infos 3 (0, 8)) ex_manager))) = []"
    by (simp add: focus_download_def download_def cancel_def set_progress_def ex_manager_def
        ex_download_def ex_ops_def ex_build_infos_def ex_extract_def Let_def replicate_numeral)
  show ?thesis using 1 2 3 4 by simp
qed

text \<open>
  C10. While an evaluation is in flight, the verdict the dialog passes to \<^verbatim>\<open>finish\<close> is
  \<open>g\<close> when the answer is \<^verbatim>\<open>Yes\<close> and \<open>b\<close> in every other case, whatever the user does
  with the box; the answer is always \<^verbatim>\<open>Yes\<close> or \<^verbatim>\<open>No\<close>, and no other verdict is
  produced. The bisector's \<^verbatim>\<open>_evaluate_finished\<close> then runs on the runner holding that
  verdict.
\<close>

theorem dialog_verdict_good_only_on_yes:
  assumes "bisector r = Some b" and "launcher (test_runner b) = Some l"
  shows "runner_evaluate ops answer r =
           (fst (evaluate_finished ops (b\<lparr>test_runner :=
                   (test_runner b)\<lparr>verdict := Some (if question_yes_no answer = Yes then ''g'' else ''b''),
                      tr_trace := tr_trace (test_runner b) @
                        [LauncherStopped (launcher_build l), EvaluateFinished],
                      launcher := None\<rparr>\<rparr>)),
            r\<lparr>mainwindow := mainwindow r @
                 [MessageBox Question ''Build Evaluation'' ''Is that good ?''],
              bisector := Some (snd (evaluate_finished ops (b\<lparr>test_runner :=
                   (test_runner b)\<lparr>verdict := Some (if question_yes_no answer = Yes then ''g'' else ''b''),
                      tr_trace := tr_trace (test_runner b) @
                        [LauncherStopped (launcher_build l), EvaluateFinished],
                      launcher := None\<rparr>\<rparr>)))\<rparr>)
       \<and> map_option (\<lambda>g. verdict (test_runner g)) (bisector (snd (runner_evaluate ops answer r)))
           = Some (Some (if question_yes_no answer = Yes then ''g'' else ''b''))
       \<and> (question_yes_no answer = Yes \<or> question_yes_no answer = No)
       \<and> (\<exists>v. map_option (\<lambda>g. verdict (test_runner g)) (bisector (snd (runner_evaluate ops answer r)))
                 = Some (Some v)
              \<and> (v = ''g'' \<or> v = ''b''))"
proof -
  let ?v = "if question_yes_no answer = Yes then ''g'' else ''b''"
  let ?b = "b\<lparr>test_runner :=
              (test_runner b)\<lparr>verdict := Some ?v,
                 tr_trace := tr_trace (test_runner b) @
                   [LauncherStopped (launcher_build l), EvaluateFinished],
                 launcher := None\<rparr>\<rparr>"
  have yn: "question_yes_no answer = Yes \<or> question_yes_no answer = No"
    by (cases answer) simp_all
  have v: "(if question_yes_no answer = No then ''b'' else ''g'') = ?v"
    by (cases answer) simp_all
  have f: "finish ?v (test_runner b) = Inr (test_runner ?b)"
    using assms(2) by (simp add: finish_def)
  have b: "b\<lparr>test_runner := test_runner ?b\<rparr> = ?b"
    by simp
  have r: "runner_evaluate ops answer r =
      (fst (evaluate_finished ops ?b),
       r\<lparr>mainwindow := mainwindow r @
            [MessageBox Question ''Build Evaluation'' ''Is that good ?''],
         bisector := Some (snd (evaluate_finished ops ?b))\<rparr>)"
    using assms(1) f b
    by (simp add: runner_evaluate_def Let_def v split: prod.splits del: if_split)
  have t: "test_runner (snd (evaluate_finished ops ?b)) = test_runner ?b"
    by (rule evaluate_finished_test_runner)
  have w: "map_option (\<lambda>g. verdict (test_runner g)) (bisector (snd (runner_evaluate ops answer r)))
      = Some (Some ?v)"
    unfolding r using t by simp
  have "?v = ''g'' \<or> ?v = ''b''" by simp
  then show ?thesis using r w yn by blast
qed

theorem dialog_verdict_good_only_on_yes_witness:
  "map_option (\<lambda>g. verdict (test_runner g))
     (bisector (snd (runner_evaluate ex_ops ClicksYes ex_evaluating))) = Some (Some ''g'')
   \<and> map_option (\<lambda>g. verdict (test_runner g))
     (bisector (snd (runner_evaluate ex_ops ClicksNo ex_evaluating))) = Some (Some ''b'')
   \<and> map_option (\<lambda>g. verdict (test_runner g))
     (bisector (snd (runner_evaluate ex_ops Dismisses ex_evaluating))) = Some (Some ''b'')"
proof -
  let ?b = "snd (evaluate_slot ex_ops ex_focused)"
  let ?l = "\<lparr>launcher_build = build_infos ex_focused, launcher_running = True\<rparr>"
  have 1: "bisector ex_evaluating = Some ?b"
    by (simp add: ex_evaluating_def)
  have 2: "launcher (test_runner ?b) = Some ?l"
    by (simp add: evaluate_slot_def bisection_evaluate_def evaluate_def ex_focused_def
        ex_bisector_def Let_def)
  show ?thesis
    using dialog_verdict_good_only_on_yes [OF 1 2, of ex_ops ClicksYes, THEN conjunct2, THEN conjunct1]
      dialog_verdict_good_only_on_yes [OF 1 2, of ex_ops ClicksNo, THEN conjunct2, THEN conjunct1]
      dialog_verdict_good_only_on_yes [OF 1 2, of ex_ops Dismisses, THEN conjunct2, THEN conjunct1]
    by simp
qed

end
